theory Spec2Isabelle
  imports Complex_Main
begin

section \<open>Data model of \<open>visualize.py\<close>\<close>

text \<open>
  Python \<open>str\<close> values are modelled as \<open>string\<close> holding the UTF-8 bytes of the text.
  The code only joins and concatenates strings, so nothing depends on how a code
  point is counted. The separator \<open>" \<rightarrow> "\<close> of the source (a space, U+2192, a space)
  is the five bytes below.
\<close>

definition arrow :: string where
  "arrow = [CHR '' '', CHR 0xE2, CHR 0x86, CHR 0x92, CHR '' '']"

text \<open>
  The exceptions the modelled code can raise. \<open>KeyError\<close> carries the missing key,
  the others carry nothing the claims look at.
\<close>

datatype error =
    KeyError string
  | ZeroDivisionError
  | ValueError
  | IndexError
  | AttributeError
  | ExternalError string

text \<open>
  One entry of the table returned by \<open>airportsdata.load("IATA")\<close>; only the two
  fields the code reads. Coordinates are Python floats; the code modelled here
  stores and copies them and does no arithmetic on them.
\<close>

record airport =
  lat :: real
  lon :: real

text \<open>
  What \<open>prepare_flight_data\<close> takes from its libraries: the airport table, the
  colormap \<open>tab10\<close> (its size \<open>cmap.N\<close>, and \<open>cmap_hex k\<close> for
  \<open>matplotlib.colors.rgb2hex(cmap(k))\<close>).
\<close>

record env =
  airports :: "string \<rightharpoonup> airport"
  cmap_N :: nat
  cmap_hex :: "nat \<Rightarrow> string"

text \<open>Shapely geometries: a \<open>LineString\<close> is its coordinate list, a \<open>Point\<close> is \<open>(x, y)\<close>.\<close>

type_synonym coord = "real \<times> real"
type_synonym linestring = "coord list"

text \<open>
  A GeoDataFrame is modelled as its list of rows. The constructors below build it
  from the column lists the way the source does; pandas raises \<open>ValueError\<close> when
  the columns differ in length.
\<close>

record flight_row =
  route :: string
  color :: string
  line :: linestring

record airport_row =
  code :: string
  point :: coord

type_synonym flights_gdf = "flight_row list"
type_synonym airports_gdf = "airport_row list"

definition mk_flights_gdf :: "string list \<Rightarrow> string list \<Rightarrow> linestring list \<Rightarrow> error + flights_gdf" where
  "mk_flights_gdf labels colors lines =
     (if length labels = length lines \<and> length colors = length lines
      then Inr (map (\<lambda>(r, c, g). \<lparr>route = r, color = c, line = g\<rparr>) (zip labels (zip colors lines)))
      else Inl ValueError)"

definition mk_airports_gdf :: "string list \<Rightarrow> coord list \<Rightarrow> error + airports_gdf" where
  "mk_airports_gdf codes points =
     (if length codes = length points
      then Inr (map (\<lambda>(c, p). \<lparr>code = c, point = p\<rparr>) (zip codes points))
      else Inl ValueError)"

section \<open>Route Builder: \<open>prepare_flight_data\<close>\<close>

text \<open>\<open>sep.join(xs)\<close> of Python.\<close>

fun join :: "string \<Rightarrow> string list \<Rightarrow> string" where
  "join sep [] = []"
| "join sep [x] = x"
| "join sep (x # y # ys) = x @ sep @ join sep (y # ys)"

text \<open>The f-string of line 39.\<close>

definition segment_label :: "string \<Rightarrow> string \<Rightarrow> string list \<Rightarrow> string" where
  "segment_label origin dest flight =
     origin @ arrow @ dest @ '' (part of '' @ join arrow flight @ '')''"

text \<open>
  The three accumulators of the first loop: \<open>flight_lines\<close>, \<open>flight_labels\<close>,
  \<open>flight_colors\<close>.
\<close>

record seg_acc =
  flight_lines :: "linestring list"
  flight_labels :: "string list"
  flight_colors :: "string list"

text \<open>
  The inner loop, lines 28 to 41, over the indices \<open>range(len(flight) - 1)\<close>.
  The first table lookup that fails raises \<open>KeyError\<close>: \<open>airports[origin]\<close> is
  evaluated before \<open>airports[dest]\<close>. For every \<open>i\<close> of that range both \<open>i\<close> and
  \<open>i + 1\<close> are below \<open>len(flight)\<close>, so neither \<open>flight[i]\<close> nor \<open>flight[i + 1]\<close>
  can raise.
\<close>

fun segment_loop :: "env \<Rightarrow> string list \<Rightarrow> string \<Rightarrow> nat list \<Rightarrow> seg_acc \<Rightarrow> error + seg_acc" where
  "segment_loop e flight col [] acc = Inr acc"
| "segment_loop e flight col (i # is) acc =
     (let origin = flight ! i; dest = flight ! (i + 1) in
      case airports e origin of
        None \<Rightarrow> Inl (KeyError origin)
      | Some ao \<Rightarrow>
          (case airports e dest of
             None \<Rightarrow> Inl (KeyError dest)
           | Some ad \<Rightarrow>
               segment_loop e flight col is
                 \<lparr>flight_lines = flight_lines acc @ [[(lon ao, lat ao), (lon ad, lat ad)]],
                  flight_labels = flight_labels acc @ [segment_label origin dest flight],
                  flight_colors = flight_colors acc @ [col]\<rparr>))"

text \<open>
  The outer loop, lines 23 to 41, over \<open>enumerate(flights)\<close>; \<open>idx\<close> is the
  running index. Python's \<open>%\<close> raises \<open>ZeroDivisionError\<close> on a zero modulus.
\<close>

fun flight_loop :: "env \<Rightarrow> nat \<Rightarrow> string list list \<Rightarrow> seg_acc \<Rightarrow> error + seg_acc" where
  "flight_loop e idx [] acc = Inr acc"
| "flight_loop e idx (flight # rest) acc =
     (if cmap_N e = 0 then Inl ZeroDivisionError
      else
        (case segment_loop e flight (cmap_hex e (idx mod cmap_N e)) [0..<length flight - 1] acc of
           Inl err \<Rightarrow> Inl err
         | Inr acc' \<Rightarrow> flight_loop e (Suc idx) rest acc'))"

text \<open>
  The accumulators of the second loop: \<open>airport_points\<close>, \<open>airport_codes\<close>,
  \<open>seen_codes\<close>.
\<close>

record apt_acc =
  airport_points :: "coord list"
  airport_codes :: "string list"
  seen_codes :: "string set"

text \<open>Lines 53 to 57, for one flight.\<close>

fun code_loop :: "env \<Rightarrow> string list \<Rightarrow> apt_acc \<Rightarrow> error + apt_acc" where
  "code_loop e [] acc = Inr acc"
| "code_loop e (c # cs) acc =
     (if c \<notin> seen_codes acc then
        (case airports e c of
           None \<Rightarrow> Inl (KeyError c)
         | Some a \<Rightarrow>
             code_loop e cs
               \<lparr>airport_points = airport_points acc @ [(lon a, lat a)],
                airport_codes = airport_codes acc @ [c],
                seen_codes = insert c (seen_codes acc)\<rparr>)
      else code_loop e cs acc)"

text \<open>Lines 52 to 57, over all flights.\<close>

fun airport_loop :: "env \<Rightarrow> string list list \<Rightarrow> apt_acc \<Rightarrow> error + apt_acc" where
  "airport_loop e [] acc = Inr acc"
| "airport_loop e (flight # rest) acc =
     (case code_loop e flight acc of
        Inl err \<Rightarrow> Inl err
      | Inr acc' \<Rightarrow> airport_loop e rest acc')"

text \<open>
  The whole function. An exception of either loop or of a frame constructor leaves
  the function before the \<open>return\<close>, so the result is the error alone.
\<close>

definition prepare_flight_data :: "env \<Rightarrow> string list list \<Rightarrow> error + (flights_gdf \<times> airports_gdf)" where
  "prepare_flight_data e flights =
     (case flight_loop e 0 flights \<lparr>flight_lines = [], flight_labels = [], flight_colors = []\<rparr> of
        Inl err \<Rightarrow> Inl err
      | Inr sacc \<Rightarrow>
          (case mk_flights_gdf (flight_labels sacc) (flight_colors sacc) (flight_lines sacc) of
             Inl err \<Rightarrow> Inl err
           | Inr fgdf \<Rightarrow>
               (case airport_loop e flights \<lparr>airport_points = [], airport_codes = [], seen_codes = {}\<rparr> of
                  Inl err \<Rightarrow> Inl err
                | Inr aacc \<Rightarrow>
                    (case mk_airports_gdf (airport_codes aacc) (airport_points aacc) of
                       Inl err \<Rightarrow> Inl err
                     | Inr agdf \<Rightarrow> Inr (fgdf, agdf)))))"

section \<open>Interactive Renderer: \<open>create_interactive_map\<close>\<close>

text \<open>
  The folium elements the function constructs, with the keyword arguments it passes.
  \<open>PolyLine\<close>: locations, color, weight, opacity, tooltip. \<open>CircleMarker\<close>:
  location, radius, color, fill, fillColor, fillOpacity, tooltip.
\<close>

datatype folium_child =
    PolyLine "coord list" string nat real string
  | CircleMarker coord nat string bool string real string

text \<open>
  The map object \<open>m\<close>: the arguments of \<open>folium.Map\<close> and the elements this code
  adds to it with \<open>add_to\<close>, in the order they are added.
\<close>

record folium_map =
  location :: coord
  zoom_start :: nat
  children :: "folium_child list"

definition add_to :: "folium_child \<Rightarrow> folium_map \<Rightarrow> folium_map" where
  "add_to child m = m\<lparr>children := children m @ [child]\<rparr>"

text \<open>Lines 72 to 79: one \<open>PolyLine\<close> per row, coordinates swapped to (lat, lon).\<close>

fun add_flight_paths :: "flights_gdf \<Rightarrow> folium_map \<Rightarrow> folium_map" where
  "add_flight_paths [] m = m"
| "add_flight_paths (row # rows) m =
     add_flight_paths rows
       (add_to (PolyLine (map (\<lambda>coord. (snd coord, fst coord)) (line row)) (color row) 3 0.7 (route row)) m)"

text \<open>Lines 82 to 91: one \<open>CircleMarker\<close> per row, at \<open>[y, x]\<close>.\<close>

fun add_airports :: "airports_gdf \<Rightarrow> folium_map \<Rightarrow> folium_map" where
  "add_airports [] m = m"
| "add_airports (row # rows) m =
     add_airports rows
       (add_to (CircleMarker (snd (point row), fst (point row)) 8 ''blue'' True ''blue'' 0.7 (code row)) m)"

text \<open>
  \<open>render\<close> stands for folium's \<open>m.get_root().render()\<close>, the serializer of the
  library, taken as a function that always returns. Strings already hold UTF-8
  bytes here, so \<open>.encode("utf-8")\<close> changes nothing.
\<close>

definition create_interactive_map ::
    "(folium_map \<Rightarrow> string) \<Rightarrow> flights_gdf \<Rightarrow> airports_gdf \<Rightarrow> string" where
  "create_interactive_map render fgdf agdf =
     render (add_airports agdf
              (add_flight_paths fgdf \<lparr>location = (30.0, 0.0), zoom_start = 2, children = []\<rparr>))"


fun tooltip :: "folium_child \<Rightarrow> string" where
  "tooltip (PolyLine locs col w op tip) = tip"
| "tooltip (CircleMarker loc r col f fc fo tip) = tip"


section \<open>Static Renderer and the orchestrator of \<open>agent.py\<close>\<close>

text \<open>
  The collaborators outside this repository, as far as the orchestrator sees them:
  \<^item> \<open>read_file\<close>: the result of \<open>gpd.read_file\<close> on the Natural Earth archive, the
    country polygons or the exception of the download;
  \<^item> \<open>savefig\<close>: lines 101 to 144 of \<open>create_static_map\<close>, matplotlib drawing the
    frames over the basemap and writing the PNG;
  \<^item> \<open>folium_render\<close>: folium's serializer;
  \<^item> \<open>b64encode\<close>: \<open>base64.b64encode(...).decode("utf-8")\<close>;
  \<^item> \<open>file_create\<close>: \<open>File.create\<close> of the platform, the identifier of the stored
    file or the exception of the upload.
\<close>

type_synonym basemap = "coord list list"

record collab =
  read_file :: "error + basemap"
  savefig :: "basemap \<Rightarrow> flights_gdf \<Rightarrow> airports_gdf \<Rightarrow> error + string"
  folium_render :: "folium_map \<Rightarrow> string"
  b64encode :: "string \<Rightarrow> string"
  file_create :: "string \<Rightarrow> string \<Rightarrow> string \<Rightarrow> error + string"

text \<open>
  \<open>create_static_map\<close>: the basemap is loaded first (line 99); an exception there
  leaves the function before anything is drawn.
\<close>

definition create_static_map :: "collab \<Rightarrow> flights_gdf \<Rightarrow> airports_gdf \<Rightarrow> error + string" where
  "create_static_map x fgdf agdf =
     (case read_file x of
        Inl err \<Rightarrow> Inl err
      | Inr world \<Rightarrow> savefig x world fgdf agdf)"

text \<open>
  The two variables of \<open>flight_search_agent\<close> that the tool writes through
  \<open>nonlocal\<close>.
\<close>

record buffers =
  static_png_bytes :: "string option"
  interactive_html_bytes :: "string option"

text \<open>
  The tool \<open>visualize_flights\<close>, lines 85 to 89: three calls in a row, with no
  exception handler. The result is the exception leaving the tool, if any, and the
  buffers as the call leaves them. An assignment happens only after its right-hand
  side has returned.
\<close>

definition visualize_flights ::
    "env \<Rightarrow> collab \<Rightarrow> string list list \<Rightarrow> buffers \<Rightarrow> error option \<times> buffers" where
  "visualize_flights e x flights b =
     (case prepare_flight_data e flights of
        Inl err \<Rightarrow> (Some err, b)
      | Inr (fgdf, agdf) \<Rightarrow>
          (case create_static_map x fgdf agdf of
             Inl err \<Rightarrow> (Some err, b)
           | Inr png \<Rightarrow>
               (None, b\<lparr>static_png_bytes := Some png,
                         interactive_html_bytes :=
                           Some (create_interactive_map (folium_render x) fgdf agdf)\<rparr>)))"

text \<open>Message parts of the a2a types the orchestrator builds or reads.\<close>

datatype a2a_file = FileWithBytes string string string | FileWithUri string

datatype part = TextPart string | FilePart a2a_file

text \<open>
  What the generator yields: a text delta or a file part.
\<close>

datatype yielded = Delta string | Part part

text \<open>
  One run of \<open>RequirementAgent(...).run(prompt)\<close> as the orchestrator sees it: the
  events it is handed, and between them the calls the framework makes to the tool
  \<open>visualize_flights\<close>. Events other than the final-answer event match no case
  of the \<open>match\<close>; calls to other tools do not touch the two buffers. An exception
  the framework lets out of the iteration ends the generator. What the framework
  does with an exception of the tool is its own affair: the steps that follow
  the call say it.
\<close>

datatype agent_step =
    FinalAnswerEvent string
  | OtherEvent
  | CallVisualize "string list list"
  | CallOtherTool
  | RunRaises error

text \<open>Line 59: both variables start as \<open>None\<close>.\<close>

definition no_buffers :: buffers where
  "no_buffers = \<lparr>static_png_bytes = None, interactive_html_bytes = None\<rparr>"

record run_state =
  bufs :: buffers
  final_answer :: "string list"
  yields :: "yielded list"

text \<open>Lines 97 to 108, along the steps of the run.\<close>

fun run_loop :: "env \<Rightarrow> collab \<Rightarrow> agent_step list \<Rightarrow> run_state \<Rightarrow> error + run_state" where
  "run_loop e x [] s = Inr s"
| "run_loop e x (FinalAnswerEvent delta # rest) s =
     run_loop e x rest (s\<lparr>final_answer := final_answer s @ [delta], yields := yields s @ [Delta delta]\<rparr>)"
| "run_loop e x (OtherEvent # rest) s = run_loop e x rest s"
| "run_loop e x (CallVisualize flights # rest) s =
     run_loop e x rest (s\<lparr>bufs := snd (visualize_flights e x flights (bufs s))\<rparr>)"
| "run_loop e x (CallOtherTool # rest) s = run_loop e x rest s"
| "run_loop e x (RunRaises err # rest) s = Inl err"

text \<open>The state before the loop: no buffer set, \<open>final_answer = []\<close>, nothing yielded.\<close>

definition start_state :: run_state where
  "start_state = \<lparr>bufs = no_buffers, final_answer = [], yields = []\<rparr>"

text \<open>Lines 112 to 117: the PNG goes inline, base64 encoded.\<close>

definition attach_png :: "collab \<Rightarrow> string option \<Rightarrow> part list \<times> yielded list \<Rightarrow> part list \<times> yielded list" where
  "attach_png x png my =
     (case png of
        None \<Rightarrow> my
      | Some bytes \<Rightarrow>
          (let file_part = FilePart (FileWithBytes (b64encode x bytes) ''image/png'' ''flights.png'')
           in (fst my @ [file_part], snd my @ [Part file_part])))"

text \<open>Lines 119 to 124: the HTML is uploaded, and the part refers to the stored file.\<close>

definition attach_html ::
    "collab \<Rightarrow> string option \<Rightarrow> part list \<times> yielded list \<Rightarrow> error + (part list \<times> yielded list)" where
  "attach_html x html my =
     (case html of
        None \<Rightarrow> Inr my
      | Some bytes \<Rightarrow>
          (case file_create x ''flights.html'' bytes ''text/html'' of
             Inl err \<Rightarrow> Inl err
           | Inr uri \<Rightarrow>
               (let file_part = FilePart (FileWithUri uri)
                in Inr (fst my @ [file_part], snd my @ [Part file_part]))))"

text \<open>
  The result of a run that ends without an exception: everything yielded, in order,
  and the parts of \<open>final_message\<close>.
\<close>

record agent_result =
  yielded_items :: "yielded list"
  final_message :: "part list"

text \<open>
  \<open>flight_search_agent\<close>. \<open>input\<close> is the list of parts of the incoming message;
  \<open>input.parts[0].root.text\<close> raises on an empty list and on a part without text.
  \<open>run\<close> gives the steps of the framework's run for a prompt. Storing the two
  messages in the context, configuring the language model and connecting to the
  search service are calls into the collaborators that touch neither the buffers
  nor the parts of the final message; they are left out.
\<close>

definition flight_search_agent ::
    "env \<Rightarrow> collab \<Rightarrow> (string \<Rightarrow> agent_step list) \<Rightarrow> part list \<Rightarrow> error + agent_result" where
  "flight_search_agent e x run input =
     (case input of
        [] \<Rightarrow> Inl IndexError
      | FilePart f # ps \<Rightarrow> Inl AttributeError
      | TextPart text # ps \<Rightarrow>
          (let prompt = ''Search flights for the user query: '' @ text in
           case run_loop e x (run prompt) start_state of
             Inl err \<Rightarrow> Inl err
           | Inr s \<Rightarrow>
               (case attach_html x (interactive_html_bytes (bufs s))
                       (attach_png x (static_png_bytes (bufs s))
                          ([TextPart (concat (final_answer s))], yields s)) of
                  Inl err \<Rightarrow> Inl err
                | Inr (parts, ys) \<Rightarrow> Inr \<lparr>yielded_items = ys, final_message = parts\<rparr>)))"

section \<open>Closed forms used in the statements\<close>

text \<open>
  The definitions of this section are not part of the program. They say in closed
  form what the loops above are proved to compute.
\<close>

text \<open>\<open>known e c\<close>: the table has an entry for \<open>c\<close>.\<close>

definition known :: "env \<Rightarrow> string \<Rightarrow> bool" where
  "known e c = (airports e c \<noteq> None)"

text \<open>The \<open>(lon, lat)\<close> pair of a code that the table has.\<close>

definition apt_coord :: "env \<Rightarrow> string \<Rightarrow> coord" where
  "apt_coord e c = (lon (the (airports e c)), lat (the (airports e c)))"

text \<open>The row of the leg from waypoint \<open>j\<close> to waypoint \<open>j + 1\<close> of a flight.\<close>

definition leg_row :: "env \<Rightarrow> string \<Rightarrow> string list \<Rightarrow> nat \<Rightarrow> flight_row" where
  "leg_row e col flight j =
     \<lparr>route = segment_label (flight ! j) (flight ! (j + 1)) flight,
      color = col,
      line = [apt_coord e (flight ! j), apt_coord e (flight ! (j + 1))]\<rparr>"

text \<open>The rows of the flight at index \<open>k\<close>, and of all flights from index \<open>idx\<close> on.\<close>

definition flight_rows :: "env \<Rightarrow> nat \<Rightarrow> string list \<Rightarrow> flight_row list" where
  "flight_rows e k flight =
     map (leg_row e (cmap_hex e (k mod cmap_N e)) flight) [0..<length flight - 1]"

definition all_rows :: "env \<Rightarrow> nat \<Rightarrow> string list list \<Rightarrow> flight_row list" where
  "all_rows e idx flights = concat (map (\<lambda>(k, flight). flight_rows e k flight) (enumerate idx flights))"

text \<open>
  First-seen order, after the specification: the first element comes first, and the
  rest follows in its own first-seen order without that element.
\<close>

fun first_seen_order :: "'a list \<Rightarrow> 'a list" where
  "first_seen_order [] = []"
| "first_seen_order (x # xs) = x # filter (\<lambda>y. y \<noteq> x) (first_seen_order xs)"

text \<open>The accumulators after rows, or codes, have been added.\<close>

definition seg_push :: "seg_acc \<Rightarrow> flight_row list \<Rightarrow> seg_acc" where
  "seg_push acc rows =
     \<lparr>flight_lines = flight_lines acc @ map line rows,
      flight_labels = flight_labels acc @ map route rows,
      flight_colors = flight_colors acc @ map color rows\<rparr>"

definition new_codes :: "apt_acc \<Rightarrow> string list \<Rightarrow> string list" where
  "new_codes acc cs = filter (\<lambda>c. c \<notin> seen_codes acc) (first_seen_order cs)"

definition apt_push :: "env \<Rightarrow> apt_acc \<Rightarrow> string list \<Rightarrow> apt_acc" where
  "apt_push e acc cs =
     \<lparr>airport_points = airport_points acc @ map (apt_coord e) (new_codes acc cs),
      airport_codes = airport_codes acc @ new_codes acc cs,
      seen_codes = seen_codes acc \<union> set cs\<rparr>"




text \<open>Reading the steps of a run.\<close>

fun is_CallVisualize :: "agent_step \<Rightarrow> bool" where
  "is_CallVisualize (CallVisualize flights) = True"
| "is_CallVisualize other = False"

fun is_RunRaises :: "agent_step \<Rightarrow> bool" where
  "is_RunRaises (RunRaises err) = True"
| "is_RunRaises other = False"

fun deltas_of :: "agent_step list \<Rightarrow> string list" where
  "deltas_of [] = []"
| "deltas_of (FinalAnswerEvent delta # rest) = delta # deltas_of rest"
| "deltas_of (other # rest) = deltas_of rest"

section \<open>Example inputs\<close>

text \<open>
  A small airport table (coordinates rounded), the ten colours of \<open>tab10\<close> as
  \<open>rgb2hex\<close> prints them, and a second environment with a palette of two colours.
\<close>

definition tab10 :: "string list" where
  "tab10 = [''#1f77b4'', ''#ff7f0e'', ''#2ca02c'', ''#d62728'', ''#9467bd'',
            ''#8c564b'', ''#e377c2'', ''#7f7f7f'', ''#bcbd22'', ''#17becf'']"

definition example_env :: env where
  "example_env =
     \<lparr>airports = [''PRG'' \<mapsto> \<lparr>lat = 50.1008, lon = 14.26\<rparr>,
                  ''LAS'' \<mapsto> \<lparr>lat = 36.0801, lon = - 115.152\<rparr>,
                  ''JFK'' \<mapsto> \<lparr>lat = 40.6398, lon = - 73.7789\<rparr>],
      cmap_N = 10,
      cmap_hex = (\<lambda>k. tab10 ! k)\<rparr>"

definition two_color_env :: env where
  "two_color_env = example_env\<lparr>cmap_N := 2\<rparr>"

definition example_flights :: "string list list" where
  "example_flights = [[''PRG'', ''LAS'', ''JFK''], [''JFK''], [''JFK'', ''PRG'']]"

text \<open>What \<open>prepare_flight_data example_env [["PRG", "LAS"]]\<close> returns.\<close>

definition example_flights_gdf :: flights_gdf where
  "example_flights_gdf =
     [\<lparr>route = ''PRG'' @ arrow @ ''LAS (part of PRG'' @ arrow @ ''LAS)'',
       color = ''#1f77b4'',
       line = [(14.26, 50.1008), (- 115.152, 36.0801)]\<rparr>]"

definition example_airports_gdf :: airports_gdf where
  "example_airports_gdf =
     [\<lparr>code = ''PRG'', point = (14.26, 50.1008)\<rparr>, \<lparr>code = ''LAS'', point = (- 115.152, 36.0801)\<rparr>]"

text \<open>
  Stand-ins for the collaborators: a serializer that prints a header and the
  tooltips, a basemap download that fails, and one that succeeds.
\<close>

definition example_render :: "folium_map \<Rightarrow> string" where
  "example_render m = ''<!DOCTYPE html>'' @ concat (map tooltip (children m))"

definition offline_collab :: collab where
  "offline_collab =
     \<lparr>read_file = Inl (ExternalError ''basemap download failed''),
      savefig = (\<lambda>world fgdf agdf. Inr ''PNG''),
      folium_render = example_render,
      b64encode = (\<lambda>bytes. bytes),
      file_create = (\<lambda>filename content content_type. Inr ''file-1'')\<rparr>"

definition online_collab :: collab where
  "online_collab = offline_collab\<lparr>read_file := Inr []\<rparr>"

text \<open>Two runs of the agent: one that calls the tool, one that does not.\<close>

definition run_with_tool :: "string \<Rightarrow> agent_step list" where
  "run_with_tool prompt = [CallOtherTool, CallVisualize [[''PRG'', ''LAS'']], FinalAnswerEvent ''done'']"

definition run_without_tool :: "string \<Rightarrow> agent_step list" where
  "run_without_tool prompt = [FinalAnswerEvent ''no '', OtherEvent, FinalAnswerEvent ''flights'']"

section \<open>The loops of \<open>prepare_flight_data\<close> in closed form\<close>

subsection \<open>The segment loops\<close>

lemma seg_push_Nil: "seg_push acc [] = acc"
  by (simp add: seg_push_def)

lemma seg_push_append: "seg_push (seg_push acc xs) ys = seg_push acc (xs @ ys)"
  by (simp add: seg_push_def)

lemma segment_loop_Inr:
  "\<forall>i\<in>set is. known e (flight ! i) \<and> known e (flight ! (i + 1)) \<Longrightarrow>
   segment_loop e flight col is acc = Inr (seg_push acc (map (leg_row e col flight) is))"
proof (induction "is" arbitrary: acc)
  case Nil
  then show ?case by (simp add: seg_push_def)
next
  case (Cons i "is")
  then show ?case
    by (auto simp: known_def leg_row_def apt_coord_def Let_def seg_push_def)
qed

lemma segment_loop_Inl:
  "segment_loop e flight col is acc = Inl err \<Longrightarrow>
   \<exists>c. err = KeyError c \<and> \<not> known e c \<and> (\<exists>i\<in>set is. c = flight ! i \<or> c = flight ! (i + 1))"
proof (induction "is" arbitrary: acc)
  case Nil
  then show ?case by simp
next
  case (Cons i "is")
  show ?case
  proof (cases "known e (flight ! i) \<and> known e (flight ! (i + 1))")
    case True
    with Cons.prems obtain acc' where "segment_loop e flight col is acc' = Inl err"
      by (auto simp: known_def Let_def)
    from Cons.IH[OF this] show ?thesis by auto
  next
    case False
    with Cons.prems show ?thesis
      by (auto simp: known_def Let_def split: option.splits)
  qed
qed

lemma range_in_flight:
  "i \<in> set [0..<length flight - 1] \<Longrightarrow> flight ! i \<in> set flight \<and> flight ! (i + 1) \<in> set flight"
  by auto

lemma flight_loop_Inr:
  "flights = [] \<or> 0 < cmap_N e \<Longrightarrow> \<forall>flight\<in>set flights. \<forall>c\<in>set flight. known e c \<Longrightarrow>
   flight_loop e idx flights acc = Inr (seg_push acc (all_rows e idx flights))"
proof (induction flights arbitrary: idx acc)
  case Nil
  then show ?case by (simp add: all_rows_def seg_push_Nil)
next
  case (Cons flight rest)
  from Cons.prems have N: "0 < cmap_N e" by simp
  have "\<forall>i\<in>set [0..<length flight - 1]. known e (flight ! i) \<and> known e (flight ! (i + 1))"
    using Cons.prems(2) range_in_flight[of _ flight] by (metis list.set_intros(1))
  then have step: "segment_loop e flight (cmap_hex e (idx mod cmap_N e)) [0..<length flight - 1] acc
      = Inr (seg_push acc (flight_rows e idx flight))"
    by (simp add: segment_loop_Inr flight_rows_def)
  have rest: "flight_loop e (Suc idx) rest (seg_push acc (flight_rows e idx flight))
      = Inr (seg_push (seg_push acc (flight_rows e idx flight)) (all_rows e (Suc idx) rest))"
    using Cons.prems N by (intro Cons.IH) auto
  show ?case
    using N step rest by (simp add: seg_push_append all_rows_def)
qed

lemma flight_loop_Inl:
  "flight_loop e idx flights acc = Inl err \<Longrightarrow> 0 < cmap_N e \<Longrightarrow>
   \<exists>c. err = KeyError c \<and> \<not> known e c \<and> (\<exists>flight\<in>set flights. c \<in> set flight)"
proof (induction flights arbitrary: idx acc)
  case Nil
  then show ?case by simp
next
  case (Cons flight rest)
  show ?case
  proof (cases "segment_loop e flight (cmap_hex e (idx mod cmap_N e)) [0..<length flight - 1] acc")
    case (Inl err')
    with Cons.prems have "err' = err" by simp
    with Inl segment_loop_Inl[of e flight _ _ acc err]
    obtain c i where "err = KeyError c" "\<not> known e c" "i \<in> set [0..<length flight - 1]"
        "c = flight ! i \<or> c = flight ! (i + 1)"
      by blast
    then show ?thesis using range_in_flight[of i flight] by auto
  next
    case (Inr acc')
    with Cons.prems have "flight_loop e (Suc idx) rest acc' = Inl err" by simp
    from Cons.IH[OF this Cons.prems(2)] show ?thesis by auto
  qed
qed

lemma segment_loop_lengths:
  "segment_loop e flight col is acc = Inr acc' \<Longrightarrow>
   length (flight_lines acc') = length (flight_lines acc) + length is \<and>
   length (flight_labels acc') = length (flight_labels acc) + length is \<and>
   length (flight_colors acc') = length (flight_colors acc) + length is"
proof (induction "is" arbitrary: acc)
  case Nil
  then show ?case by simp
next
  case (Cons i "is")
  then show ?case
    by (fastforce simp: Let_def split: option.splits)
qed

lemma flight_loop_lengths:
  "flight_loop e idx flights acc = Inr acc' \<Longrightarrow>
   length (flight_labels acc) = length (flight_lines acc) \<Longrightarrow>
   length (flight_colors acc) = length (flight_lines acc) \<Longrightarrow>
   length (flight_labels acc') = length (flight_lines acc') \<and>
   length (flight_colors acc') = length (flight_lines acc')"
proof (induction flights arbitrary: idx acc)
  case Nil
  then show ?case by simp
next
  case (Cons flight rest)
  from Cons.prems(1) obtain acc1 where
    s: "segment_loop e flight (cmap_hex e (idx mod cmap_N e)) [0..<length flight - 1] acc = Inr acc1"
    and r: "flight_loop e (Suc idx) rest acc1 = Inr acc'"
    by (auto split: if_splits sum.splits)
  from segment_loop_lengths[OF s] Cons.prems(2,3)
  have "length (flight_labels acc1) = length (flight_lines acc1)"
    "length (flight_colors acc1) = length (flight_lines acc1)" by simp_all
  with Cons.IH[OF r] show ?case by simp
qed

lemma mk_flights_gdf_rows:
  "mk_flights_gdf (map route rows) (map color rows) (map line rows) = Inr rows"
proof -
  have "map (\<lambda>(r, c, g). \<lparr>route = r, color = c, line = g\<rparr>)
          (zip (map route rows) (zip (map color rows) (map line rows))) = rows"
    by (induction rows) auto
  then show ?thesis by (simp add: mk_flights_gdf_def)
qed

lemma mk_airports_gdf_rows:
  "mk_airports_gdf cs (map f cs) = Inr (map (\<lambda>c. \<lparr>code = c, point = f c\<rparr>) cs)"
proof -
  have "map (\<lambda>(c, p). \<lparr>code = c, point = p\<rparr>) (zip cs (map f cs)) = map (\<lambda>c. \<lparr>code = c, point = f c\<rparr>) cs"
    by (induction cs) auto
  then show ?thesis by (simp add: mk_airports_gdf_def)
qed

subsection \<open>First-seen order and the airport loops\<close>

lemma first_seen_order_set: "set (first_seen_order xs) = set xs"
  by (induction xs) auto

lemma first_seen_order_distinct: "distinct (first_seen_order xs)"
  by (induction xs) auto

lemma first_seen_order_append:
  "first_seen_order (xs @ ys) = first_seen_order xs @ filter (\<lambda>y. y \<notin> set xs) (first_seen_order ys)"
proof (induction xs)
  case Nil
  then show ?case by simp
next
  case (Cons x xs)
  have "filter (\<lambda>y. y \<noteq> x) (filter (\<lambda>y. y \<notin> set xs) (first_seen_order ys))
      = filter (\<lambda>y. y \<notin> set (x # xs)) (first_seen_order ys)"
    by (auto intro: filter_cong)
  with Cons show ?case by simp
qed

lemma code_loop_Inr:
  "\<forall>c\<in>set cs. known e c \<Longrightarrow> code_loop e cs acc = Inr (apt_push e acc cs)"
proof (induction cs arbitrary: acc)
  case Nil
  then show ?case by (simp add: apt_push_def new_codes_def)
next
  case (Cons c cs)
  show ?case
  proof (cases "c \<in> seen_codes acc")
    case True
    have "filter (\<lambda>y. y \<notin> seen_codes acc) (filter (\<lambda>y. y \<noteq> c) (first_seen_order cs))
        = filter (\<lambda>y. y \<notin> seen_codes acc) (first_seen_order cs)"
      using True by (auto intro: filter_cong)
    moreover have "seen_codes acc \<union> set (c # cs) = seen_codes acc \<union> set cs"
      using True by auto
    ultimately have "apt_push e acc (c # cs) = apt_push e acc cs"
      using True by (simp add: apt_push_def new_codes_def)
    with True Cons show ?thesis by simp
  next
    case False
    from Cons.prems obtain a where a: "airports e c = Some a"
      by (auto simp: known_def)
    let ?acc' = "\<lparr>airport_points = airport_points acc @ [(lon a, lat a)],
                  airport_codes = airport_codes acc @ [c],
                  seen_codes = insert c (seen_codes acc)\<rparr>"
    have "filter (\<lambda>y. y \<notin> seen_codes acc) (filter (\<lambda>y. y \<noteq> c) (first_seen_order cs))
        = filter (\<lambda>y. y \<notin> insert c (seen_codes acc)) (first_seen_order cs)"
      by (auto intro: filter_cong)
    then have "apt_push e ?acc' cs = apt_push e acc (c # cs)"
      using False a by (simp add: apt_push_def new_codes_def apt_coord_def)
    moreover have "code_loop e cs ?acc' = Inr (apt_push e ?acc' cs)"
      using Cons by simp
    ultimately show ?thesis using False a by simp
  qed
qed

lemma apt_push_append: "apt_push e (apt_push e acc xs) ys = apt_push e acc (xs @ ys)"
proof -
  have "filter (\<lambda>c. c \<notin> seen_codes acc \<union> set xs) (first_seen_order ys)
      = filter (\<lambda>c. c \<notin> seen_codes acc) (filter (\<lambda>y. y \<notin> set xs) (first_seen_order ys))"
    by (auto intro: filter_cong)
  then show ?thesis
    by (simp add: apt_push_def new_codes_def first_seen_order_append Un_assoc)
qed

lemma airport_loop_Inr:
  "\<forall>flight\<in>set flights. \<forall>c\<in>set flight. known e c \<Longrightarrow>
   airport_loop e flights acc = Inr (apt_push e acc (concat flights))"
proof (induction flights arbitrary: acc)
  case Nil
  then show ?case by (simp add: apt_push_def new_codes_def)
next
  case (Cons flight rest)
  then show ?case by (simp add: code_loop_Inr apt_push_append)
qed

lemma code_loop_Inl:
  "code_loop e cs acc = Inl err \<Longrightarrow> \<exists>c\<in>set cs. err = KeyError c \<and> \<not> known e c"
proof (induction cs arbitrary: acc)
  case Nil
  then show ?case by simp
next
  case (Cons c cs)
  then show ?case
    by (fastforce simp: known_def split: if_splits option.splits)
qed

lemma code_loop_fails:
  "\<exists>c\<in>set cs. \<not> known e c \<Longrightarrow> \<forall>c\<in>seen_codes acc. known e c \<Longrightarrow>
   \<exists>err. code_loop e cs acc = Inl err"
proof (induction cs arbitrary: acc)
  case Nil
  then show ?case by simp
next
  case (Cons c cs)
  show ?case
  proof (cases "known e c")
    case True
    with Cons.prems have ex: "\<exists>c\<in>set cs. \<not> known e c" by auto
    show ?thesis
    proof (cases "c \<in> seen_codes acc")
      case True
      with Cons.IH[OF ex Cons.prems(2)] show ?thesis by simp
    next
      case False
      from \<open>known e c\<close> obtain a where a: "airports e c = Some a" by (auto simp: known_def)
      let ?acc' = "\<lparr>airport_points = airport_points acc @ [(lon a, lat a)],
                    airport_codes = airport_codes acc @ [c],
                    seen_codes = insert c (seen_codes acc)\<rparr>"
      have "\<forall>c\<in>seen_codes ?acc'. known e c" using Cons.prems(2) \<open>known e c\<close> by simp
      from Cons.IH[OF ex this] False a show ?thesis by simp
    qed
  next
    case False
    with Cons.prems(2) have "c \<notin> seen_codes acc" by auto
    with False show ?thesis by (simp add: known_def)
  qed
qed

lemma airport_loop_Inl:
  "airport_loop e flights acc = Inl err \<Longrightarrow>
   \<exists>c. err = KeyError c \<and> \<not> known e c \<and> (\<exists>flight\<in>set flights. c \<in> set flight)"
proof (induction flights arbitrary: acc)
  case Nil
  then show ?case by simp
next
  case (Cons flight rest)
  show ?case
  proof (cases "code_loop e flight acc")
    case (Inl err')
    with Cons.prems have "err' = err" by simp
    with Inl code_loop_Inl[of e flight acc err] show ?thesis by auto
  next
    case (Inr acc')
    with Cons.prems have "airport_loop e rest acc' = Inl err" by simp
    from Cons.IH[OF this] show ?thesis by auto
  qed
qed

lemma airport_loop_fails:
  "\<exists>flight\<in>set flights. \<exists>c\<in>set flight. \<not> known e c \<Longrightarrow> \<forall>c\<in>seen_codes acc. known e c \<Longrightarrow>
   \<exists>err. airport_loop e flights acc = Inl err"
proof (induction flights arbitrary: acc)
  case Nil
  then show ?case by simp
next
  case (Cons flight rest)
  show ?case
  proof (cases "\<forall>c\<in>set flight. known e c")
    case True
    then have step: "code_loop e flight acc = Inr (apt_push e acc flight)"
      by (rule code_loop_Inr)
    have seen: "\<forall>c\<in>seen_codes (apt_push e acc flight). known e c"
      using True Cons.prems(2) by (auto simp: apt_push_def new_codes_def)
    from Cons.prems(1) True have "\<exists>flight\<in>set rest. \<exists>c\<in>set flight. \<not> known e c" by auto
    from Cons.IH[OF this seen] step show ?thesis by simp
  next
    case False
    then have "\<exists>c\<in>set flight. \<not> known e c" by simp
    from code_loop_fails[OF this Cons.prems(2)] show ?thesis by auto
  qed
qed

subsection \<open>The whole function\<close>

text \<open>
  With every code in the table (and a palette that is not empty, unless there is no
  flight) the function returns, and this is what it returns.
\<close>

lemma prepare_flight_data_Inr:
  assumes "flights = [] \<or> 0 < cmap_N e"
    and "\<forall>flight\<in>set flights. \<forall>c\<in>set flight. known e c"
  shows "prepare_flight_data e flights =
     Inr (all_rows e 0 flights,
          map (\<lambda>c. \<lparr>code = c, point = apt_coord e c\<rparr>) (first_seen_order (concat flights)))"
proof -
  let ?s0 = "\<lparr>flight_lines = [], flight_labels = [], flight_colors = []\<rparr>"
  let ?a0 = "\<lparr>airport_points = [], airport_codes = [], seen_codes = {}\<rparr>"
  have f: "flight_loop e 0 flights ?s0 = Inr (seg_push ?s0 (all_rows e 0 flights))"
    using assms by (rule flight_loop_Inr)
  have a: "airport_loop e flights ?a0 = Inr (apt_push e ?a0 (concat flights))"
    using assms(2) by (rule airport_loop_Inr)
  have n: "new_codes ?a0 cs = first_seen_order cs" for cs
    by (simp add: new_codes_def)
  show ?thesis
    unfolding prepare_flight_data_def f a
    by (simp add: seg_push_def apt_push_def n mk_flights_gdf_rows mk_airports_gdf_rows)
qed

text \<open>With a palette that is not empty, the only exception is the \<open>KeyError\<close> of a code of the input.\<close>

lemma prepare_flight_data_Inl:
  assumes "prepare_flight_data e flights = Inl err" and "0 < cmap_N e"
  shows "\<exists>c. err = KeyError c \<and> \<not> known e c \<and> (\<exists>flight\<in>set flights. c \<in> set flight)"
proof -
  let ?s0 = "\<lparr>flight_lines = [], flight_labels = [], flight_colors = []\<rparr>"
  let ?a0 = "\<lparr>airport_points = [], airport_codes = [], seen_codes = {}\<rparr>"
  show ?thesis
  proof (cases "flight_loop e 0 flights ?s0")
    case (Inl err')
    with assms(1) have "err' = err" by (simp add: prepare_flight_data_def)
    with Inl flight_loop_Inl[of e 0 flights ?s0 err] assms(2) show ?thesis by simp
  next
    case (Inr sacc)
    from flight_loop_lengths[OF Inr]
    have "length (flight_labels sacc) = length (flight_lines sacc)"
      "length (flight_colors sacc) = length (flight_lines sacc)" by simp_all
    then obtain fgdf where m: "mk_flights_gdf (flight_labels sacc) (flight_colors sacc) (flight_lines sacc) = Inr fgdf"
      by (simp add: mk_flights_gdf_def)
    show ?thesis
    proof (cases "airport_loop e flights ?a0")
      case (Inl err')
      with assms(1) Inr m have "err' = err" by (simp add: prepare_flight_data_def)
      with Inl airport_loop_Inl[of e flights ?a0 err] show ?thesis by simp
    next
      case (Inr aacc)
      have "\<forall>flight\<in>set flights. \<forall>c\<in>set flight. known e c"
      proof (rule ccontr)
        assume "\<not> ?thesis"
        then have "\<exists>flight\<in>set flights. \<exists>c\<in>set flight. \<not> known e c" by simp
        from airport_loop_fails[OF this, of ?a0] Inr show False by simp
      qed
      from prepare_flight_data_Inr[OF _ this] assms show ?thesis by simp
    qed
  qed
qed

lemma prepare_flight_data_fails:
  assumes "\<exists>flight\<in>set flights. \<exists>c\<in>set flight. \<not> known e c"
  shows "\<exists>err. prepare_flight_data e flights = Inl err"
proof -
  let ?s0 = "\<lparr>flight_lines = [], flight_labels = [], flight_colors = []\<rparr>"
  let ?a0 = "\<lparr>airport_points = [], airport_codes = [], seen_codes = {}\<rparr>"
  from airport_loop_fails[OF assms, of ?a0] obtain err where "airport_loop e flights ?a0 = Inl err"
    by auto
  then show ?thesis
    by (simp add: prepare_flight_data_def split: sum.splits)
qed

lemma all_rows_blocks:
  "all_rows e 0 flights = concat (map (\<lambda>k. flight_rows e k (flights ! k)) [0..<length flights])"
proof -
  have "map (\<lambda>(k, flight). flight_rows e k flight) (enumerate 0 flights)
      = map (\<lambda>k. flight_rows e k (flights ! k)) [0..<length flights]"
    by (rule nth_equalityI) (simp_all add: nth_enumerate_eq)
  then show ?thesis by (simp add: all_rows_def)
qed



lemma example_prepare:
  "prepare_flight_data example_env [[''PRG'', ''LAS'']] = Inr (example_flights_gdf, example_airports_gdf)"
  by (simp add: prepare_flight_data_def segment_label_def mk_flights_gdf_def mk_airports_gdf_def
      example_env_def example_flights_gdf_def example_airports_gdf_def tab10_def)

section \<open>The renderers and the run in closed form\<close>






lemma visualize_flights_cases:
  "visualize_flights e x flights b = (r, b') \<Longrightarrow>
   (r \<noteq> None \<and> b' = b) \<or>
   (r = None \<and> static_png_bytes b' \<noteq> None \<and> interactive_html_bytes b' \<noteq> None)"
  by (auto simp: visualize_flights_def split: sum.splits prod.splits)

lemma run_loop_bufs:
  "run_loop e x steps s0 = Inr sf \<Longrightarrow>
   bufs sf = bufs s0 \<or>
   (\<exists>flights b. CallVisualize flights \<in> set steps \<and> visualize_flights e x flights b = (None, bufs sf))"
proof (induction e x steps s0 rule: run_loop.induct)
  case (4 e x flights rest s)
  let ?s1 = "s\<lparr>bufs := snd (visualize_flights e x flights (bufs s))\<rparr>"
  from "4.prems" have "run_loop e x rest ?s1 = Inr sf" by simp
  from "4.IH"[OF this] show ?case
  proof
    assume eq: "bufs sf = bufs ?s1"
    obtain r b' where v: "visualize_flights e x flights (bufs s) = (r, b')"
      by (cases "visualize_flights e x flights (bufs s)")
    from visualize_flights_cases[OF v] eq v show ?thesis
      by auto
  next
    assume "\<exists>flights b. CallVisualize flights \<in> set rest \<and> visualize_flights e x flights b = (None, bufs sf)"
    then show ?thesis by auto
  qed
qed auto

lemma run_loop_answer:
  "run_loop e x steps s0 = Inr sf \<Longrightarrow>
   final_answer sf = final_answer s0 @ deltas_of steps \<and>
   yields sf = yields s0 @ map Delta (deltas_of steps)"
  by (induction e x steps s0 rule: run_loop.induct) auto

lemma run_loop_returns:
  "\<forall>st\<in>set steps. \<not> is_RunRaises st \<Longrightarrow> \<exists>sf. run_loop e x steps s0 = Inr sf"
  by (induction e x steps s0 rule: run_loop.induct) auto

lemma run_loop_no_tool:
  "run_loop e x steps s0 = Inr sf \<Longrightarrow> \<forall>st\<in>set steps. \<not> is_CallVisualize st \<Longrightarrow> bufs sf = bufs s0"
  by (induction e x steps s0 rule: run_loop.induct) auto

section \<open>Claims about the Route Builder\<close>



text \<open>
  Claim C2. For every sequence of itineraries whose codes the table has, the codes of
  the airport frame are the distinct codes of all itineraries, each once, in
  first-seen order, and each point is the table's coordinate of its code. For
  \<open>[["PRG", "LAS"], ["LAS", "PRG"]]\<close> there are two segments and two airport points.
\<close>

theorem airport_points_first_seen:
  "(0 < cmap_N e \<and> (\<forall>flight\<in>set flights. \<forall>c\<in>set flight. airports e c \<noteq> None) \<longrightarrow>
      (\<exists>fgdf agdf.
         prepare_flight_data e flights = Inr (fgdf, agdf) \<and>
         map code agdf = first_seen_order (concat flights) \<and>
         distinct (map code agdf) \<and>
         set (map code agdf) = \<Union> (set ` set flights) \<and>
         (\<forall>r\<in>set agdf. point r = apt_coord e (code r)))) \<and>
   (0 < cmap_N e \<and> airports e ''PRG'' \<noteq> None \<and> airports e ''LAS'' \<noteq> None \<longrightarrow>
      (\<exists>fgdf agdf.
         prepare_flight_data e [[''PRG'', ''LAS''], [''LAS'', ''PRG'']] = Inr (fgdf, agdf) \<and>
         length fgdf = 2 \<and> length agdf = 2 \<and> map code agdf = [''PRG'', ''LAS'']))"
proof (intro conjI impI)
  assume h: "0 < cmap_N e \<and> (\<forall>flight\<in>set flights. \<forall>c\<in>set flight. airports e c \<noteq> None)"
  let ?agdf = "map (\<lambda>c. \<lparr>code = c, point = apt_coord e c\<rparr>) (first_seen_order (concat flights))"
  from h have 1: "prepare_flight_data e flights = Inr (all_rows e 0 flights, ?agdf)"
    by (intro prepare_flight_data_Inr) (simp_all add: known_def)
  have 2: "map code ?agdf = first_seen_order (concat flights)"
    by (simp add: comp_def)
  have 3: "distinct (map code ?agdf)"
    unfolding 2 by (rule first_seen_order_distinct)
  have 4: "set (map code ?agdf) = \<Union> (set ` set flights)"
    unfolding 2 by (simp add: first_seen_order_set)
  have 5: "\<forall>r\<in>set ?agdf. point r = apt_coord e (code r)"
    by auto
  from 1 2 3 4 5
  show "\<exists>fgdf agdf.
         prepare_flight_data e flights = Inr (fgdf, agdf) \<and>
         map code agdf = first_seen_order (concat flights) \<and>
         distinct (map code agdf) \<and>
         set (map code agdf) = \<Union> (set ` set flights) \<and>
         (\<forall>r\<in>set agdf. point r = apt_coord e (code r))"
    by blast
next
  assume h: "0 < cmap_N e \<and> airports e ''PRG'' \<noteq> None \<and> airports e ''LAS'' \<noteq> None"
  then have "prepare_flight_data e [[''PRG'', ''LAS''], [''LAS'', ''PRG'']] =
     Inr (all_rows e 0 [[''PRG'', ''LAS''], [''LAS'', ''PRG'']],
          map (\<lambda>c. \<lparr>code = c, point = apt_coord e c\<rparr>)
            (first_seen_order (concat [[''PRG'', ''LAS''], [''LAS'', ''PRG'']])))"
    by (intro prepare_flight_data_Inr) (simp_all add: known_def)
  moreover have "length (all_rows e 0 [[''PRG'', ''LAS''], [''LAS'', ''PRG'']]) = 2"
    by (simp add: all_rows_def flight_rows_def enumerate_simps)
  moreover have "first_seen_order (concat [[''PRG'', ''LAS''], [''LAS'', ''PRG'']]) = [''PRG'', ''LAS'']"
    by simp
  ultimately
  show "\<exists>fgdf agdf.
         prepare_flight_data e [[''PRG'', ''LAS''], [''LAS'', ''PRG'']] = Inr (fgdf, agdf) \<and>
         length fgdf = 2 \<and> length agdf = 2 \<and> map code agdf = [''PRG'', ''LAS'']"
    by simp
qed

theorem airport_points_first_seen_witness:
  "(0 < cmap_N example_env \<and> airports example_env ''PRG'' \<noteq> None \<and> airports example_env ''LAS'' \<noteq> None) \<and>
   (\<exists>fgdf agdf.
      prepare_flight_data example_env [[''PRG'', ''LAS''], [''LAS'', ''PRG'']] = Inr (fgdf, agdf) \<and>
      map code agdf = first_seen_order (concat [[''PRG'', ''LAS''], [''LAS'', ''PRG'']]) \<and>
      distinct (map code agdf) \<and>
      set (map code agdf) = \<Union> (set ` set [[''PRG'', ''LAS''], [''LAS'', ''PRG'']]) \<and>
      (\<forall>r\<in>set agdf. point r = apt_coord example_env (code r))) \<and>
   (\<exists>fgdf agdf.
      prepare_flight_data example_env [[''PRG'', ''LAS''], [''LAS'', ''PRG'']] = Inr (fgdf, agdf) \<and>
      length fgdf = 2 \<and> length agdf = 2 \<and> map code agdf = [''PRG'', ''LAS''])"
proof -
  have h1: "0 < cmap_N example_env \<and>
      (\<forall>flight\<in>set [[''PRG'', ''LAS''], [''LAS'', ''PRG'']]. \<forall>c\<in>set flight. airports example_env c \<noteq> None)"
    by (simp add: example_env_def)
  have h2: "0 < cmap_N example_env \<and> airports example_env ''PRG'' \<noteq> None \<and> airports example_env ''LAS'' \<noteq> None"
    by (simp add: example_env_def)
  from airport_points_first_seen[of example_env "[[''PRG'', ''LAS''], [''LAS'', ''PRG'']]"] h1 h2
  show ?thesis by blast
qed

text \<open>
  Claim C3. If a code of the input is not in the table, \<open>prepare_flight_data\<close> raises
  and returns no frame at all; the exception is the \<open>KeyError\<close> of a code of the
  input that the table does not have (the palette of a colormap is never empty).
\<close>

theorem unknown_code_aborts:
  assumes "\<exists>flight\<in>set flights. \<exists>c\<in>set flight. airports e c = None"
  shows "(\<exists>err. prepare_flight_data e flights = Inl err) \<and>
         (\<forall>fgdf agdf. prepare_flight_data e flights \<noteq> Inr (fgdf, agdf)) \<and>
         (0 < cmap_N e \<longrightarrow>
            (\<exists>c. prepare_flight_data e flights = Inl (KeyError c) \<and> airports e c = None \<and>
                 c \<in> \<Union> (set ` set flights)))"
proof -
  from assms have "\<exists>flight\<in>set flights. \<exists>c\<in>set flight. \<not> known e c"
    by (simp add: known_def)
  from prepare_flight_data_fails[OF this] obtain err where err: "prepare_flight_data e flights = Inl err"
    by blast
  have "\<exists>c. prepare_flight_data e flights = Inl (KeyError c) \<and> airports e c = None \<and>
                 c \<in> \<Union> (set ` set flights)" if "0 < cmap_N e"
    using prepare_flight_data_Inl[OF err that] err by (auto simp: known_def)
  with err show ?thesis by simp
qed

theorem unknown_code_aborts_witness:
  "(\<exists>flight\<in>set [[''PRG'', ''LAS''], [''JFK'', ''XXX'']]. \<exists>c\<in>set flight. airports example_env c = None) \<and>
   prepare_flight_data example_env [[''PRG'', ''LAS''], [''JFK'', ''XXX'']] = Inl (KeyError ''XXX'')"
proof -
  have h: "\<exists>flight\<in>set [[''PRG'', ''LAS''], [''JFK'', ''XXX'']]. \<exists>c\<in>set flight. airports example_env c = None"
    by (simp add: example_env_def)
  have N: "0 < cmap_N example_env" by (simp add: example_env_def)
  from unknown_code_aborts[OF h] N obtain c where
    c: "prepare_flight_data example_env [[''PRG'', ''LAS''], [''JFK'', ''XXX'']] = Inl (KeyError c)"
      "airports example_env c = None" "c \<in> \<Union> (set ` set [[''PRG'', ''LAS''], [''JFK'', ''XXX'']])"
    by blast
  from c(2,3) have "c = ''XXX''"
    by (auto simp: example_env_def)
  with c(1) h show ?thesis by simp
qed

text \<open>
  Claim C5. The colour of a segment is the palette colour at the index of its
  itinerary modulo the palette size: every segment of itinerary \<open>k\<close> has the colour
  \<open>cmap_hex e (k mod cmap_N e)\<close>, and two itineraries whose indices differ by a
  multiple of the palette size have segments of the same colour.
\<close>

theorem color_by_index_mod_palette:
  assumes "0 < cmap_N e"
    and "\<forall>flight\<in>set flights. \<forall>c\<in>set flight. airports e c \<noteq> None"
  shows "\<exists>fgdf agdf blocks.
     prepare_flight_data e flights = Inr (fgdf, agdf) \<and>
     fgdf = concat blocks \<and> length blocks = length flights \<and>
     (\<forall>k<length flights.
        length (blocks ! k) = length (flights ! k) - 1 \<and>
        (\<forall>r\<in>set (blocks ! k). color r = cmap_hex e (k mod cmap_N e))) \<and>
     (\<forall>k<length flights. \<forall>k'<length flights.
        (\<exists>m. k' = k + m * cmap_N e) \<longrightarrow>
        (\<forall>r\<in>set (blocks ! k). \<forall>r'\<in>set (blocks ! k'). color r = color r'))"
proof -
  let ?blocks = "map (\<lambda>k. flight_rows e k (flights ! k)) [0..<length flights]"
  from assms obtain agdf where "prepare_flight_data e flights = Inr (all_rows e 0 flights, agdf)"
    using prepare_flight_data_Inr[of flights e] by (simp add: known_def)
  then have 1: "prepare_flight_data e flights = Inr (concat ?blocks, agdf)"
    by (simp add: all_rows_blocks)
  have 2: "length ?blocks = length flights" by simp
  have 3: "\<forall>k<length flights.
        length (?blocks ! k) = length (flights ! k) - 1 \<and>
        (\<forall>r\<in>set (?blocks ! k). color r = cmap_hex e (k mod cmap_N e))"
    by (auto simp: flight_rows_def leg_row_def)
  have 4: "\<forall>k<length flights. \<forall>k'<length flights.
        (\<exists>m. k' = k + m * cmap_N e) \<longrightarrow>
        (\<forall>r\<in>set (?blocks ! k). \<forall>r'\<in>set (?blocks ! k'). color r = color r')"
  proof (intro allI impI ballI)
    fix k k' r r'
    assume k: "k < length flights" "k' < length flights" and m: "\<exists>m. k' = k + m * cmap_N e"
      and r: "r \<in> set (?blocks ! k)" "r' \<in> set (?blocks ! k')"
    from m have "k' mod cmap_N e = k mod cmap_N e" by auto
    moreover from 3 k r have "color r = cmap_hex e (k mod cmap_N e)"
      "color r' = cmap_hex e (k' mod cmap_N e)" by blast+
    ultimately show "color r = color r'" by simp
  qed
  from 1 2 3 4 show ?thesis by blast
qed

theorem color_by_index_mod_palette_witness:
  "0 < cmap_N two_color_env \<and>
   (\<exists>fgdf agdf blocks.
     prepare_flight_data two_color_env example_flights = Inr (fgdf, agdf) \<and>
     fgdf = concat blocks \<and> length blocks = length example_flights \<and>
     (\<forall>k<length example_flights.
        length (blocks ! k) = length (example_flights ! k) - 1 \<and>
        (\<forall>r\<in>set (blocks ! k). color r = cmap_hex two_color_env (k mod cmap_N two_color_env))) \<and>
     (\<forall>k<length example_flights. \<forall>k'<length example_flights.
        (\<exists>m. k' = k + m * cmap_N two_color_env) \<longrightarrow>
        (\<forall>r\<in>set (blocks ! k). \<forall>r'\<in>set (blocks ! k'). color r = color r')))"
proof -
  have h1: "0 < cmap_N two_color_env"
    by (simp add: two_color_env_def)
  have h2: "\<forall>flight\<in>set example_flights. \<forall>c\<in>set flight. airports two_color_env c \<noteq> None"
    by (simp add: two_color_env_def example_env_def example_flights_def)
  from color_by_index_mod_palette[OF h1 h2] h1 show ?thesis by blast
qed



text \<open>
  Claim C9. For the single itinerary \<open>[["PRG", "LAS"]]\<close>, with both codes in the
  table, \<open>prepare_flight_data\<close> returns exactly one segment, from PRG to LAS, and
  exactly two airport points, with the codes \<open>"PRG"\<close> and \<open>"LAS"\<close> in this order.
\<close>

theorem single_direct_flight:
  assumes "0 < cmap_N e" and "airports e ''PRG'' = Some p" and "airports e ''LAS'' = Some l"
  shows "prepare_flight_data e [[''PRG'', ''LAS'']] =
     Inr ([\<lparr>route = ''PRG'' @ arrow @ ''LAS (part of PRG'' @ arrow @ ''LAS)'',
            color = cmap_hex e 0,
            line = [(lon p, lat p), (lon l, lat l)]\<rparr>],
          [\<lparr>code = ''PRG'', point = (lon p, lat p)\<rparr>, \<lparr>code = ''LAS'', point = (lon l, lat l)\<rparr>])"
  using assms
  by (simp add: prepare_flight_data_def segment_label_def mk_flights_gdf_def mk_airports_gdf_def)

theorem single_direct_flight_witness:
  "0 < cmap_N example_env \<and>
   airports example_env ''PRG'' = Some \<lparr>lat = 50.1008, lon = 14.26\<rparr> \<and>
   airports example_env ''LAS'' = Some \<lparr>lat = 36.0801, lon = - 115.152\<rparr> \<and>
   (\<exists>fgdf agdf.
      prepare_flight_data example_env [[''PRG'', ''LAS'']] = Inr (fgdf, agdf) \<and>
      length fgdf = 1 \<and> map code agdf = [''PRG'', ''LAS''])"
proof -
  have h1: "0 < cmap_N example_env"
    by (simp add: example_env_def)
  have h2: "airports example_env ''PRG'' = Some \<lparr>lat = 50.1008, lon = 14.26\<rparr>"
    by (simp add: example_env_def)
  have h3: "airports example_env ''LAS'' = Some \<lparr>lat = 36.0801, lon = - 115.152\<rparr>"
    by (simp add: example_env_def)
  from single_direct_flight[OF h1 h2 h3] h1 h2 h3 show ?thesis by simp
qed

section \<open>Claims about the renderers and the orchestrator\<close>



text \<open>
  Claim C4, as the code has it. When the basemap cannot be loaded, the exception
  leaves \<open>create_static_map\<close> and then the tool \<open>visualize_flights\<close>, which calls the
  two renderers one after the other with no handler: the call ends before the
  interactive renderer is invoked, and it leaves both buffers as they were.
\<close>

theorem static_failure_aborts_tool:
  assumes "prepare_flight_data e flights = Inr (fgdf, agdf)" and "read_file x = Inl err"
  shows "create_static_map x fgdf agdf = Inl err \<and> visualize_flights e x flights b = (Some err, b)"
  using assms by (simp add: visualize_flights_def create_static_map_def)

theorem static_failure_aborts_tool_witness:
  "prepare_flight_data example_env [[''PRG'', ''LAS'']] = Inr (example_flights_gdf, example_airports_gdf) \<and>
   read_file offline_collab = Inl (ExternalError ''basemap download failed'') \<and>
   create_static_map offline_collab example_flights_gdf example_airports_gdf
     = Inl (ExternalError ''basemap download failed'') \<and>
   visualize_flights example_env offline_collab [[''PRG'', ''LAS'']] no_buffers
     = (Some (ExternalError ''basemap download failed''), no_buffers)"
proof -
  have h: "read_file offline_collab = Inl (ExternalError ''basemap download failed'')"
    by (simp add: offline_collab_def)
  from static_failure_aborts_tool[OF example_prepare h, of no_buffers] example_prepare h
  show ?thesis by simp
qed

text \<open>
  The claim as stated, that the interactive rendering of the same request is still
  produced, fails: with the basemap download failing and both buffers unset, the
  tool call for \<open>[["PRG", "LAS"]]\<close> leaves the interactive buffer unset.
\<close>

theorem static_failure_blocks_interactive_counterexample:
  "create_static_map offline_collab example_flights_gdf example_airports_gdf
     = Inl (ExternalError ''basemap download failed'') \<and>
   visualize_flights example_env offline_collab [[''PRG'', ''LAS'']] no_buffers
     = (Some (ExternalError ''basemap download failed''), no_buffers) \<and>
   interactive_html_bytes
     (snd (visualize_flights example_env offline_collab [[''PRG'', ''LAS'']] no_buffers)) = None"
  by (simp add: visualize_flights_def example_prepare create_static_map_def offline_collab_def no_buffers_def)

text \<open>
  Claim C10. When \<open>flight_search_agent\<close> ends without an exception, its final
  message is the text part, then the PNG part if and only if the static buffer is
  set, then the HTML part if and only if the interactive buffer is set, and the
  same file parts are yielded after the deltas. A file part is there only if the
  run called \<open>visualize_flights\<close> and that call returned with these buffers. If the
  run never calls the tool (and lets no exception out), the final message is the
  text part alone and only deltas are yielded.
\<close>

theorem file_parts_only_after_tool:
  "(flight_search_agent e x run input = Inr res \<longrightarrow>
      (\<exists>query_text ps sf pngs htmls.
         input = TextPart query_text # ps \<and>
         run_loop e x (run (''Search flights for the user query: '' @ query_text)) start_state = Inr sf \<and>
         final_message res = [TextPart (concat (final_answer sf))] @ pngs @ htmls \<and>
         yielded_items res = yields sf @ map Part (pngs @ htmls) \<and>
         (case static_png_bytes (bufs sf) of
            None \<Rightarrow> pngs = []
          | Some bytes \<Rightarrow> pngs = [FilePart (FileWithBytes (b64encode x bytes) ''image/png'' ''flights.png'')]) \<and>
         (case interactive_html_bytes (bufs sf) of
            None \<Rightarrow> htmls = []
          | Some bytes \<Rightarrow>
              (\<exists>uri. file_create x ''flights.html'' bytes ''text/html'' = Inr uri \<and>
                     htmls = [FilePart (FileWithUri uri)])) \<and>
         (pngs @ htmls \<noteq> [] \<longrightarrow>
            (\<exists>flights b.
               CallVisualize flights \<in> set (run (''Search flights for the user query: '' @ query_text)) \<and>
               visualize_flights e x flights b = (None, bufs sf))))) \<and>
   ((\<forall>st\<in>set (run (''Search flights for the user query: '' @ query_text)).
        \<not> is_CallVisualize st \<and> \<not> is_RunRaises st) \<longrightarrow>
      flight_search_agent e x run (TextPart query_text # ps) =
        Inr \<lparr>yielded_items = map Delta (deltas_of (run (''Search flights for the user query: '' @ query_text))),
             final_message = [TextPart (concat (deltas_of (run (''Search flights for the user query: '' @ query_text))))]\<rparr>)"
proof (intro conjI impI)
  assume ok: "flight_search_agent e x run input = Inr res"
  then obtain query_text ps where inp: "input = TextPart query_text # ps"
    by (auto simp: flight_search_agent_def split: list.splits part.splits)
  let ?steps = "run (''Search flights for the user query: '' @ query_text)"
  from ok inp obtain sf where loop: "run_loop e x ?steps start_state = Inr sf"
    by (auto simp: flight_search_agent_def start_state_def Let_def split: sum.splits)
  let ?my0 = "([TextPart (concat (final_answer sf))], yields sf)"
  let ?my1 = "attach_png x (static_png_bytes (bufs sf)) ?my0"
  from ok inp loop obtain parts ys where att: "attach_html x (interactive_html_bytes (bufs sf)) ?my1 = Inr (parts, ys)"
    and res: "res = \<lparr>yielded_items = ys, final_message = parts\<rparr>"
    by (auto simp: flight_search_agent_def start_state_def Let_def split: sum.splits)
  obtain pngs where pngs: "?my1 = (fst ?my0 @ pngs, snd ?my0 @ map Part pngs)"
    "case static_png_bytes (bufs sf) of None \<Rightarrow> pngs = [] | Some bytes \<Rightarrow> pngs = [FilePart (FileWithBytes (b64encode x bytes) ''image/png'' ''flights.png'')]"
    by (cases "static_png_bytes (bufs sf)") (auto simp: attach_png_def Let_def)
  from att obtain htmls where htmls: "(parts, ys) = (fst ?my1 @ htmls, snd ?my1 @ map Part htmls)"
    "case interactive_html_bytes (bufs sf) of
            None \<Rightarrow> htmls = []
          | Some bytes \<Rightarrow>
              (\<exists>uri. file_create x ''flights.html'' bytes ''text/html'' = Inr uri \<and>
                     htmls = [FilePart (FileWithUri uri)])"
    by (cases "interactive_html_bytes (bufs sf)")
       (auto simp: attach_html_def Let_def split: sum.splits)
  have fm: "final_message res = [TextPart (concat (final_answer sf))] @ pngs @ htmls"
    and yi: "yielded_items res = yields sf @ map Part (pngs @ htmls)"
    using res pngs(1) htmls(1) by simp_all
  have tool: "\<exists>flights b. CallVisualize flights \<in> set ?steps \<and> visualize_flights e x flights b = (None, bufs sf)"
    if ne: "pngs @ htmls \<noteq> []"
  proof -
    from ne pngs(2) htmls(2) have "bufs sf \<noteq> bufs start_state"
      by (auto simp: start_state_def no_buffers_def split: option.splits)
    with run_loop_bufs[OF loop] show ?thesis by simp
  qed
  from inp loop fm yi pngs(2) htmls(2) tool
  show "\<exists>query_text ps sf pngs htmls.
         input = TextPart query_text # ps \<and>
         run_loop e x (run (''Search flights for the user query: '' @ query_text)) start_state = Inr sf \<and>
         final_message res = [TextPart (concat (final_answer sf))] @ pngs @ htmls \<and>
         yielded_items res = yields sf @ map Part (pngs @ htmls) \<and>
         (case static_png_bytes (bufs sf) of
            None \<Rightarrow> pngs = []
          | Some bytes \<Rightarrow> pngs = [FilePart (FileWithBytes (b64encode x bytes) ''image/png'' ''flights.png'')]) \<and>
         (case interactive_html_bytes (bufs sf) of
            None \<Rightarrow> htmls = []
          | Some bytes \<Rightarrow>
              (\<exists>uri. file_create x ''flights.html'' bytes ''text/html'' = Inr uri \<and>
                     htmls = [FilePart (FileWithUri uri)])) \<and>
         (pngs @ htmls \<noteq> [] \<longrightarrow>
            (\<exists>flights b.
               CallVisualize flights \<in> set (run (''Search flights for the user query: '' @ query_text)) \<and>
               visualize_flights e x flights b = (None, bufs sf)))"
    by blast
next
  let ?steps = "run (''Search flights for the user query: '' @ query_text)"
  assume h: "\<forall>st\<in>set ?steps. \<not> is_CallVisualize st \<and> \<not> is_RunRaises st"
  then obtain sf where loop: "run_loop e x ?steps start_state = Inr sf"
    using run_loop_returns[of ?steps e x start_state] by auto
  from run_loop_no_tool[OF loop] h have b: "bufs sf = no_buffers"
    by (simp add: start_state_def)
  from run_loop_answer[OF loop] have a: "final_answer sf = deltas_of ?steps" "yields sf = map Delta (deltas_of ?steps)"
    by (simp_all add: start_state_def)
  from loop show "flight_search_agent e x run (TextPart query_text # ps) =
        Inr \<lparr>yielded_items = map Delta (deltas_of ?steps),
             final_message = [TextPart (concat (deltas_of ?steps))]\<rparr>"
    by (simp add: flight_search_agent_def start_state_def Let_def a b no_buffers_def attach_png_def attach_html_def)
qed

theorem file_parts_only_after_tool_witness:
  "flight_search_agent example_env online_collab run_with_tool [TextPart ''PRG to LAS'']
     = Inr \<lparr>yielded_items =
              [Delta ''done'',
               Part (FilePart (FileWithBytes ''PNG'' ''image/png'' ''flights.png'')),
               Part (FilePart (FileWithUri ''file-1''))],
            final_message =
              [TextPart ''done'',
               FilePart (FileWithBytes ''PNG'' ''image/png'' ''flights.png''),
               FilePart (FileWithUri ''file-1'')]\<rparr> \<and>
   (\<exists>flights b (sf :: run_state).
      CallVisualize flights \<in> set (run_with_tool (''Search flights for the user query: '' @ ''PRG to LAS'')) \<and>
      visualize_flights example_env online_collab flights b = (None, bufs sf) \<and>
      static_png_bytes (bufs sf) = Some ''PNG'') \<and>
   flight_search_agent example_env online_collab run_without_tool [TextPart ''PRG to LAS'']
     = Inr \<lparr>yielded_items = [Delta ''no '', Delta ''flights''],
            final_message = [TextPart ''no flights'']\<rparr>"
proof -
  let ?res = "\<lparr>yielded_items =
              [Delta ''done'',
               Part (FilePart (FileWithBytes ''PNG'' ''image/png'' ''flights.png'')),
               Part (FilePart (FileWithUri ''file-1''))],
            final_message =
              [TextPart ''done'',
               FilePart (FileWithBytes ''PNG'' ''image/png'' ''flights.png''),
               FilePart (FileWithUri ''file-1'')]\<rparr>"
  have h1: "flight_search_agent example_env online_collab run_with_tool [TextPart ''PRG to LAS''] = Inr ?res"
    by (simp add: flight_search_agent_def run_with_tool_def start_state_def no_buffers_def
        visualize_flights_def example_prepare create_static_map_def online_collab_def
        offline_collab_def attach_png_def attach_html_def Let_def)
  have h2: "\<forall>st\<in>set (run_without_tool (''Search flights for the user query: '' @ ''PRG to LAS'')).
      \<not> is_CallVisualize st \<and> \<not> is_RunRaises st"
    by (simp add: run_without_tool_def)
  from file_parts_only_after_tool[of example_env online_collab run_with_tool "[TextPart ''PRG to LAS'']" ?res]
    h1
  obtain sf :: run_state and pngs htmls where
    fm: "final_message ?res = [TextPart (concat (final_answer sf))] @ pngs @ htmls"
    and png: "case static_png_bytes (bufs sf) of
            None \<Rightarrow> pngs = []
          | Some bytes \<Rightarrow> pngs = [FilePart (FileWithBytes (b64encode online_collab bytes) ''image/png'' ''flights.png'')]"
    and html: "case interactive_html_bytes (bufs sf) of
            None \<Rightarrow> htmls = []
          | Some bytes \<Rightarrow>
              (\<exists>uri. file_create online_collab ''flights.html'' bytes ''text/html'' = Inr uri \<and>
                     htmls = [FilePart (FileWithUri uri)])"
    and tool: "pngs @ htmls \<noteq> [] \<longrightarrow>
            (\<exists>flights b.
               CallVisualize flights \<in> set (run_with_tool (''Search flights for the user query: '' @ ''PRG to LAS'')) \<and>
               visualize_flights example_env online_collab flights b = (None, bufs sf))"
    by blast
  from fm png html have ne: "pngs @ htmls \<noteq> []"
    by (auto split: option.splits)
  from fm png html have st: "static_png_bytes (bufs sf) = Some ''PNG''"
    by (auto simp: online_collab_def offline_collab_def split: option.splits)
  from tool ne st have 3: "\<exists>flights b (sf :: run_state).
      CallVisualize flights \<in> set (run_with_tool (''Search flights for the user query: '' @ ''PRG to LAS'')) \<and>
      visualize_flights example_env online_collab flights b = (None, bufs sf) \<and>
      static_png_bytes (bufs sf) = Some ''PNG''"
    by blast
  from file_parts_only_after_tool[of example_env online_collab run_without_tool _ _ "''PRG to LAS''" "[]"] h2
  have 4: "flight_search_agent example_env online_collab run_without_tool [TextPart ''PRG to LAS'']
     = Inr \<lparr>yielded_items = [Delta ''no '', Delta ''flights''],
            final_message = [TextPart ''no flights'']\<rparr>"
    by (simp add: run_without_tool_def)
  from h1 3 4 show ?thesis by blast
qed

end
